theory Spec2Isabelle
  imports Main
begin

section \<open>Settings of \<^verbatim>\<open>buildandrecord.py\<close>\<close>

text \<open>
  The module-level constants of the script. The source writes \<^verbatim>\<open>LINKER_PREFIX\<close> over two
  lines with a backslash before the line break; inside a Python string literal that pair is
  dropped, so the prefix ends with the closing quote of the output path.
\<close>

definition COMPILE_PREFIX :: string where
  "COMPILE_PREFIX = ''/usr/bin/swiftc -module-name Action ''"

definition LINKER_PREFIX :: string where
  "LINKER_PREFIX =
     ''/usr/bin/swiftc -Xlinker '-rpath=$ORIGIN' '-L/swift3Action/spm-build/.build/release' -o '/swift3Action/spm-build/.build/release/Action''
       @ [CHR 0x27]"

definition GENERATED_BUILD_SCRIPT :: string where
  "GENERATED_BUILD_SCRIPT = ''/swift3Action/spm-build/swiftbuildandlink.sh''"

definition SPM_DIRECTORY :: string where
  "SPM_DIRECTORY = ''/swift3Action/spm-build''"

definition BUILD_COMMAND :: "string list" where
  "BUILD_COMMAND = [''swift'', ''build'', ''-v'', ''-c'', ''release'']"

text \<open>The flag that the loop appends to a compile line.\<close>

definition SUPPRESS_FLAG :: string where
  "SUPPRESS_FLAG = '' -suppress-warnings''"

section \<open>Looking for the compile and link commands in the step trace\<close>

text \<open>\<^verbatim>\<open>s.startswith(p)\<close>: the first \<open>length p\<close> characters of \<open>s\<close> are \<open>p\<close>.\<close>

definition startswith :: "string \<Rightarrow> string \<Rightarrow> bool" where
  "startswith s p = (take (length p) s = p)"

text \<open>
  The two variables \<^verbatim>\<open>compileCommand\<close> and \<^verbatim>\<open>linkCommand\<close>; \<open>None\<close> is Python's
  \<^verbatim>\<open>None\<close>.
\<close>

type_synonym commands = "string option \<times> string option"

text \<open>
  The body of the \<^verbatim>\<open>for\<close> loop, for one instruction. Both assignments are unconditional:
  the source does not look at the old value of the variable it assigns.
\<close>

fun loop_body :: "string \<Rightarrow> commands \<Rightarrow> commands" where
  "loop_body instruction (compileCommand, linkCommand) =
     (if startswith instruction COMPILE_PREFIX
      then (Some (instruction @ SUPPRESS_FLAG), linkCommand)
      else if startswith instruction LINKER_PREFIX
      then (compileCommand, Some instruction)
      else (compileCommand, linkCommand))"

text \<open>The \<^verbatim>\<open>for\<close> loop over \<^verbatim>\<open>buildInstructions\<close>, in order.\<close>

fun scan :: "string list \<Rightarrow> commands \<Rightarrow> commands" where
  "scan [] st = st"
| "scan (instruction # rest) st = scan rest (loop_body instruction st)"

text \<open>The loop started from \<^verbatim>\<open>compileCommand = None\<close>, \<^verbatim>\<open>linkCommand = None\<close>.\<close>

definition find_commands :: "string list \<Rightarrow> commands" where
  "find_commands buildInstructions = scan buildInstructions (None, None)"

section \<open>The build script\<close>

text \<open>
  The twelve \<^verbatim>\<open>buildScript.write\<close> calls of the \<^verbatim>\<open>with\<close> block, in order, each with the
  string it is given.
\<close>

definition script_writes :: "string \<Rightarrow> string \<Rightarrow> string list" where
  \<open>script_writes compileCommand linkCommand =
     [''#!/bin/bash\<newline>'',
      ''echo "Compiling"\<newline>'',
      compileCommand @ ''\<newline>'',
      ''swiftStatus=$?\<newline>'',
      ''echo swiftc status is $swiftStatus\<newline>'',
      ''if [[ "$swiftStatus" -eq "0" ]]; then\<newline>'',
      ''echo "Linking"\<newline>'',
      linkCommand @ ''\<newline>'',
      ''else\<newline>'',
      ''>2& echo "Action did not compile"\<newline>'',
      ''exit 1\<newline>'',
      ''fi'']\<close>

text \<open>The text that the twelve writes add to the file.\<close>

definition script_body :: "string \<Rightarrow> string \<Rightarrow> string" where
  "script_body compileCommand linkCommand = concat (script_writes compileCommand linkCommand)"

section \<open>The process and its environment\<close>

text \<open>
  What the script does to the outside is kept in a record: the lines printed, the files
  (contents and permission bits), and the calls made to the operating system, in order.
  Text is a list of characters, one per code point; the characters below 128 are the ASCII
  ones. The script is Python 2: the decoded trace lines are \<^verbatim>\<open>unicode\<close> objects, and so is
  every string built from them, while the literals of the script are byte strings. A
  \<^verbatim>\<open>unicode\<close> object is encoded when it is printed (with the encoding of the standard output)
  and when it is written to a file (with the \<^verbatim>\<open>ascii\<close> codec), and a character that the
  codec does not have raises \<^verbatim>\<open>UnicodeEncodeError\<close>. \<open>stdout_encodes\<close> says which characters
  beyond ASCII the standard output can encode: none of them when it is a pipe, all of them
  on a UTF-8 terminal. Faults of the file system other than a missing file are not part of
  the model.
\<close>

record inode =
  content :: string
  mode :: nat

datatype syscall =
    Exec "string list" string
  | Open string string
  | Write string string
  | Close string
  | Chmod string nat

record world =
  stdout :: "string list"
  files :: "string \<rightharpoonup> inode"
  new_file_mode :: nat
  stdout_encodes :: "char \<Rightarrow> bool"
  calls :: "syscall list"

datatype exn = CalledProcessError int | OSError | UnicodeEncodeError

text \<open>
  How the process ends: \<^verbatim>\<open>sys.exit(n)\<close>, or an exception that nothing catches (the
  interpreter prints the traceback and the status is 1).
\<close>

datatype outcome = SystemExit nat | Uncaught exn

fun exit_status :: "outcome \<Rightarrow> nat" where
  "exit_status (SystemExit n) = n"
| "exit_status (Uncaught e) = 1"

text \<open>
  One run of \<^verbatim>\<open>swift build\<close>, as the script sees it: the return code, and the output
  decoded and split into lines (\<^verbatim>\<open>out.decode("utf-8").splitlines()\<close>).
\<close>

record build =
  returncode :: int
  output_lines :: "string list"

text \<open>A text of ASCII characters only: the texts that the \<^verbatim>\<open>ascii\<close> codec encodes.\<close>

definition is_ascii :: "string \<Rightarrow> bool" where
  "is_ascii s = list_all (\<lambda>c. (of_char c :: nat) < 128) s"

text \<open>\<^verbatim>\<open>print\<close> of a byte string: the line goes out as it is.\<close>

definition print :: "string \<Rightarrow> world \<Rightarrow> world" where
  "print s w = w\<lparr>stdout := stdout w @ [s]\<rparr>"

text \<open>
  \<^verbatim>\<open>print\<close> of a \<^verbatim>\<open>unicode\<close> object: the text is encoded for the standard output first, and
  nothing is printed when that fails.
\<close>

definition print_unicode :: "string \<Rightarrow> world \<Rightarrow> world \<times> (exn + unit)" where
  "print_unicode s w =
     (if list_all (\<lambda>c. (of_char c :: nat) < 128 \<or> stdout_encodes w c) s
      then (print s w, Inr ())
      else (w, Inl UnicodeEncodeError))"

definition call :: "syscall \<Rightarrow> world \<Rightarrow> world" where
  "call c w = w\<lparr>calls := calls w @ [c]\<rparr>"

text \<open>
  \<^verbatim>\<open>subprocess.check_output\<close>: runs the command and returns its output, and raises
  \<^verbatim>\<open>CalledProcessError\<close> when the return code is not zero.
\<close>

definition check_output :: "string list \<Rightarrow> string \<Rightarrow> build \<Rightarrow> world \<Rightarrow> world \<times> (exn + string list)" where
  "check_output cmd cwd b w =
     (let w' = call (Exec cmd cwd) w
      in if returncode b \<noteq> 0 then (w', Inl (CalledProcessError (returncode b)))
         else (w', Inr (output_lines b)))"

text \<open>
  \<^verbatim>\<open>open(path, "a")\<close>: the file is created empty when it is missing and is left as it is
  otherwise; writes go to its end.
\<close>

definition open_append :: "string \<Rightarrow> world \<Rightarrow> world" where
  "open_append path w =
     (let w' = call (Open path ''a'') w
      in case files w' path of
           None \<Rightarrow> w'\<lparr>files := (files w')(path \<mapsto> \<lparr>content = [], mode = new_file_mode w'\<rparr>)\<rparr>
         | Some f \<Rightarrow> w')"

text \<open>
  \<^verbatim>\<open>buildScript.write(s)\<close>: a \<^verbatim>\<open>unicode\<close> argument is encoded with the \<^verbatim>\<open>ascii\<close> codec,
  which raises on a character from 128 on, before anything is written. The literals that the
  script writes are byte strings of ASCII characters, which pass the same test.
\<close>

definition file_write :: "string \<Rightarrow> string \<Rightarrow> world \<Rightarrow> world \<times> (exn + unit)" where
  "file_write path s w =
     (if \<not> is_ascii s then (w, Inl UnicodeEncodeError)
      else (let w' = call (Write path s) w
            in case files w' path of
                 None \<Rightarrow> (w', Inr ())
               | Some f \<Rightarrow>
                   (w'\<lparr>files := (files w')(path \<mapsto> f\<lparr>content := content f @ s\<rparr>)\<rparr>, Inr ())))"

text \<open>The writes of the \<^verbatim>\<open>with\<close> block in order, up to the first one that raises.\<close>

fun write_all :: "string \<Rightarrow> string list \<Rightarrow> world \<Rightarrow> world \<times> (exn + unit)" where
  "write_all path [] w = (w, Inr ())"
| "write_all path (s # ss) w =
     (case file_write path s w of
        (w', Inl e) \<Rightarrow> (w', Inl e)
      | (w', Inr u) \<Rightarrow> write_all path ss w')"

text \<open>Leaving the \<^verbatim>\<open>with\<close> block closes the file, also when a write has raised.\<close>

definition close :: "string \<Rightarrow> world \<Rightarrow> world" where
  "close path w = call (Close path) w"

text \<open>\<^verbatim>\<open>os.chmod(path, m)\<close>: raises \<^verbatim>\<open>OSError\<close> when there is no such file.\<close>

definition chmod :: "string \<Rightarrow> nat \<Rightarrow> world \<Rightarrow> world \<times> (exn + unit)" where
  "chmod path m w =
     (let w' = call (Chmod path m) w
      in case files w' path of
           None \<Rightarrow> (w', Inl OSError)
         | Some f \<Rightarrow> (w'\<lparr>files := (files w')(path \<mapsto> f\<lparr>mode := m\<rparr>)\<rparr>, Inr ()))"

text \<open>The octal literal \<^verbatim>\<open>0777\<close>.\<close>

definition MODE_0777 :: nat where
  "MODE_0777 = 7 * 64 + 7 * 8 + 7"

text \<open>
  The whole script, top to bottom. The two lines that print a command print a
  \<^verbatim>\<open>unicode\<close> object; the other printed lines are literals.
\<close>

definition main :: "build \<Rightarrow> world \<Rightarrow> world \<times> outcome" where
  "main b w0 =
     (let w1 = print ''Building action'' w0
      in case check_output BUILD_COMMAND SPM_DIRECTORY b w1 of
           (w2, Inl e) \<Rightarrow> (w2, Uncaught e)
         | (w2, Inr buildInstructions) \<Rightarrow>
             (let w3 = print ''action built. Decoding compile and link commands'' w2
              in case find_commands buildInstructions of
                   (Some compileCommand, Some linkCommand) \<Rightarrow>
                     (case print_unicode
                             (''Generated OpenWhisk Compile command: '' @ compileCommand) w3 of
                        (w4, Inl e) \<Rightarrow> (w4, Uncaught e)
                      | (w4, Inr u) \<Rightarrow>
                          (let w5 = print ''========='' w4
                           in case print_unicode
                                     (''Generated OpenWhisk Link command: '' @ linkCommand) w5 of
                                (w6, Inl e) \<Rightarrow> (w6, Uncaught e)
                              | (w6, Inr u) \<Rightarrow>
                                  (let w7 = open_append GENERATED_BUILD_SCRIPT w6
                                   in case write_all GENERATED_BUILD_SCRIPT
                                             (script_writes compileCommand linkCommand) w7 of
                                        (w8, Inl e) \<Rightarrow>
                                          (close GENERATED_BUILD_SCRIPT w8, Uncaught e)
                                      | (w8, Inr u) \<Rightarrow>
                                          (let w9 = close GENERATED_BUILD_SCRIPT w8
                                           in case chmod GENERATED_BUILD_SCRIPT MODE_0777 w9 of
                                                (w10, Inl e) \<Rightarrow> (w10, Uncaught e)
                                              | (w10, Inr u) \<Rightarrow> (w10, SystemExit 0)))))
                 | (compileCommand, linkCommand) \<Rightarrow>
                     (print ''Cannot generate build script: compile or link command not found'' w3,
                      SystemExit 1)))"

section \<open>Reading the results\<close>

text \<open>
  The last element of a list that satisfies a predicate, if there is one; the first one,
  likewise. They state which trace line a command comes from.
\<close>

definition last_match :: "('a \<Rightarrow> bool) \<Rightarrow> 'a list \<Rightarrow> 'a option" where
  "last_match P xs = (case filter P xs of [] \<Rightarrow> None | y # ys \<Rightarrow> Some (last (y # ys)))"

definition first_match :: "('a \<Rightarrow> bool) \<Rightarrow> 'a list \<Rightarrow> 'a option" where
  "first_match P xs = (case filter P xs of [] \<Rightarrow> None | y # ys \<Rightarrow> Some y)"

definition is_compile :: "string \<Rightarrow> bool" where
  "is_compile l = startswith l COMPILE_PREFIX"

definition is_link :: "string \<Rightarrow> bool" where
  "is_link l = startswith l LINKER_PREFIX"


text \<open>
  A text split at its line feeds, as the shell reads a script: \<^verbatim>\<open>s.split("\n")\<close>. The
  result always has a last line (empty after a final line feed), so the first branch of the
  \<open>case\<close> is never taken.
\<close>

fun split_lf :: "string \<Rightarrow> string list" where
  "split_lf [] = [[]]"
| "split_lf (c # cs) =
     (if c = CHR 0x0A then [] # split_lf cs
      else (case split_lf cs of [] \<Rightarrow> [[c]] | l # ls \<Rightarrow> (c # l) # ls))"

text \<open>
  The lines of a script text that stand between its \<^verbatim>\<open>else\<close> line and its \<^verbatim>\<open>fi\<close> line.
\<close>

definition else_branch :: "string list \<Rightarrow> string list" where
  "else_branch ls = takeWhile (\<lambda>l. l \<noteq> ''fi'') (drop 1 (dropWhile (\<lambda>l. l \<noteq> ''else'') ls))"

text \<open>A text occurs in another one: it starts at some position of it.\<close>

fun occurs_in :: "string \<Rightarrow> string \<Rightarrow> bool" where
  "occurs_in p [] = (p = [])"
| "occurs_in p (c # cs) = (startswith (c # cs) p \<or> occurs_in p cs)"

section \<open>Facts about the prefixes and the loop\<close>

lemma startswith_append: "startswith (p @ s) p"
  by (simp add: startswith_def)

lemma startswith_nth: "startswith s p \<Longrightarrow> i < length p \<Longrightarrow> s ! i = p ! i"
  unfolding startswith_def by (metis nth_take)

lemma prefixes_disjoint: "startswith l COMPILE_PREFIX \<Longrightarrow> \<not> startswith l LINKER_PREFIX"
proof
  assume c: "startswith l COMPILE_PREFIX" and k: "startswith l LINKER_PREFIX"
  have "17 < length COMPILE_PREFIX" and "COMPILE_PREFIX ! 17 = CHR ''m''"
    by (simp_all add: COMPILE_PREFIX_def)
  with c have "l ! 17 = CHR ''m''"
    by (simp add: startswith_nth)
  moreover have "17 < length LINKER_PREFIX" and "LINKER_PREFIX ! 17 = CHR ''X''"
    by (simp_all add: LINKER_PREFIX_def)
  with k have "l ! 17 = CHR ''X''"
    by (simp add: startswith_nth)
  ultimately show False by simp
qed

lemma is_compile_prefixed: "is_compile (COMPILE_PREFIX @ s)"
  by (simp add: is_compile_def startswith_append)

lemma is_link_prefixed: "is_link (LINKER_PREFIX @ s)"
  by (simp add: is_link_def startswith_append)

lemma compile_not_link: "is_compile l \<Longrightarrow> \<not> is_link l"
  by (simp add: is_compile_def is_link_def prefixes_disjoint)

lemma link_not_compile: "is_link l \<Longrightarrow> \<not> is_compile l"
  using compile_not_link by blast

lemma last_match_Cons:
  "last_match P (x # xs) =
     (case last_match P xs of Some y \<Rightarrow> Some y | None \<Rightarrow> if P x then Some x else None)"
  by (auto simp: last_match_def split: list.splits)

lemma last_match_Nil: "last_match P [] = None"
  by (simp add: last_match_def)

lemma scan_last_match:
  "scan tr (c, k) =
     (case last_match is_compile tr of None \<Rightarrow> c | Some x \<Rightarrow> Some (x @ SUPPRESS_FLAG),
      case last_match is_link tr of None \<Rightarrow> k | Some x \<Rightarrow> Some x)"
proof (induction tr arbitrary: c k)
  case Nil
  show ?case by (simp add: last_match_Nil)
next
  case (Cons x xs)
  show ?case
    using prefixes_disjoint [of x]
    by (auto simp: Cons last_match_Cons is_compile_def is_link_def split: option.splits)
qed

lemma find_commands_last:
  "find_commands tr =
     (map_option (\<lambda>l. l @ SUPPRESS_FLAG) (last_match is_compile tr), last_match is_link tr)"
  by (simp add: find_commands_def scan_last_match split: option.splits)

lemma last_match_single: "filter P xs = [y] \<Longrightarrow> last_match P xs = Some y"
  by (simp add: last_match_def)

lemma last_match_None: "last_match P xs = None \<longleftrightarrow> \<not> (\<exists>x\<in>set xs. P x)"
proof -
  have "last_match P xs = None \<longleftrightarrow> filter P xs = []"
    by (simp add: last_match_def split: list.splits)
  then show ?thesis by (simp add: filter_empty_conv)
qed

lemma last_match_SomeD: "last_match P xs = Some y \<Longrightarrow> y \<in> set xs \<and> P y"
proof -
  assume "last_match P xs = Some y"
  then have ne: "filter P xs \<noteq> []" and y: "y = last (filter P xs)"
    by (auto simp: last_match_def split: list.splits)
  from ne have "last (filter P xs) \<in> set (filter P xs)" by (rule last_in_set)
  with y show ?thesis by simp
qed

section \<open>Facts about the file operations\<close>















section \<open>Facts about the ways the script ends\<close>

lemma main_build_failed:
  "returncode b \<noteq> 0 \<Longrightarrow>
   main b w =
     (w\<lparr>stdout := stdout w @ [''Building action''],
        calls := calls w @ [Exec BUILD_COMMAND SPM_DIRECTORY]\<rparr>,
      Uncaught (CalledProcessError (returncode b)))"
  by (simp add: main_def check_output_def print_def call_def)

lemma main_command_missing:
  assumes "returncode b = 0"
    and "fst (find_commands (output_lines b)) = None \<or> snd (find_commands (output_lines b)) = None"
  shows "main b w =
     (w\<lparr>stdout := stdout w @
          [''Building action'',
           ''action built. Decoding compile and link commands'',
           ''Cannot generate build script: compile or link command not found''],
        calls := calls w @ [Exec BUILD_COMMAND SPM_DIRECTORY]\<rparr>,
      SystemExit 1)"
proof (cases "find_commands (output_lines b)")
  case (Pair c k)
  with assms(2) have "c = None \<or> k = None" by simp
  then show ?thesis
    using assms(1) Pair
    by (auto simp: main_def check_output_def print_def call_def Let_def split: option.splits)
qed





section \<open>Facts about the text of the script\<close>

lemma split_lf_line:
  "CHR 0x0A \<notin> set s \<Longrightarrow> split_lf (s @ CHR 0x0A # t) = s # split_lf t"
  by (induction s) auto

lemma split_lf_no_lf: "CHR 0x0A \<notin> set s \<Longrightarrow> split_lf s = [s]"
  by (induction s) auto

lemma startswith_longer: "startswith x p \<Longrightarrow> startswith (x @ s) p"
proof -
  assume a: "startswith x p"
  then have "length (take (length p) x) = length p"
    by (simp add: startswith_def)
  then have "length p \<le> length x"
    by simp
  with a show ?thesis
    by (simp add: startswith_def)
qed

lemma starts_with_slash:
  assumes "startswith l p" and "p = CHR ''/'' # r"
  shows "\<exists>t. l = CHR ''/'' # t"
proof (cases l)
  case Nil
  with assms show ?thesis by (simp add: startswith_def)
next
  case (Cons a t)
  with assms have "a = CHR ''/''" by (simp add: startswith_def)
  with Cons show ?thesis by simp
qed

lemma is_link_first: "is_link l \<Longrightarrow> \<exists>t. l = CHR ''/'' # t"
  unfolding is_link_def
  by (erule starts_with_slash) (simp add: LINKER_PREFIX_def)

lemma script_body_lines:
  assumes "CHR 0x0A \<notin> set cc" and "CHR 0x0A \<notin> set lc"
  shows \<open>split_lf (script_body cc lc) =
      [''#!/bin/bash'', ''echo "Compiling"'', cc, ''swiftStatus=$?'',
       ''echo swiftc status is $swiftStatus'',
       ''if [[ "$swiftStatus" -eq "0" ]]; then'',
       ''echo "Linking"'', lc,
       ''else'',
       ''>2& echo "Action did not compile"'', ''exit 1'',
       ''fi'']\<close>
  using assms
  by (simp add: script_body_def script_writes_def split_lf_line)


lemma is_compile_first: "is_compile l \<Longrightarrow> \<exists>t. l = CHR ''/'' # t"
  unfolding is_compile_def
  by (erule starts_with_slash) (simp add: COMPILE_PREFIX_def)

lemma found_commands_shape:
  assumes "find_commands tr = (Some cc, Some lc)"
    and "\<forall>l\<in>set tr. CHR 0x0A \<notin> set l"
  shows "CHR 0x0A \<notin> set cc" and "CHR 0x0A \<notin> set lc"
    and "is_compile cc" and "is_link lc"
proof -
  from assms(1) obtain x where x: "last_match is_compile tr = Some x" and cc: "cc = x @ SUPPRESS_FLAG"
    and l: "last_match is_link tr = Some lc"
    by (auto simp: find_commands_last)
  from last_match_SomeD [OF x] have xs: "x \<in> set tr" and xc: "is_compile x" by simp_all
  from last_match_SomeD [OF l] have ls: "lc \<in> set tr" and lk: "is_link lc" by simp_all
  from xs assms(2) show "CHR 0x0A \<notin> set cc"
    by (auto simp: cc SUPPRESS_FLAG_def)
  from ls assms(2) show "CHR 0x0A \<notin> set lc"
    by blast
  from xc show "is_compile cc"
    by (simp add: cc is_compile_def startswith_longer)
  from lk show "is_link lc" .
qed

lemma script_structure:
  assumes "find_commands tr = (Some cc, Some lc)"
    and "\<forall>l\<in>set tr. CHR 0x0A \<notin> set l"
  shows \<open>split_lf (script_body cc lc) =
      [''#!/bin/bash'', ''echo "Compiling"'', cc, ''swiftStatus=$?'',
       ''echo swiftc status is $swiftStatus'',
       ''if [[ "$swiftStatus" -eq "0" ]]; then'',
       ''echo "Linking"'', lc,
       ''else'',
       ''>2& echo "Action did not compile"'', ''exit 1'',
       ''fi'']
    \<and> else_branch (split_lf (script_body cc lc)) =
      [''>2& echo "Action did not compile"'', ''exit 1'']\<close>
proof -
  note sh = found_commands_shape [OF assms]
  from sh(3) obtain t where t: "cc = CHR ''/'' # t" by (auto dest: is_compile_first)
  from sh(4) obtain u where u: "lc = CHR ''/'' # u" by (auto dest: is_link_first)
  have ne: "cc \<noteq> ''else''" "lc \<noteq> ''else''"
    by (simp_all add: t u)
  have lines: \<open>split_lf (script_body cc lc) =
      [''#!/bin/bash'', ''echo "Compiling"'', cc, ''swiftStatus=$?'',
       ''echo swiftc status is $swiftStatus'',
       ''if [[ "$swiftStatus" -eq "0" ]]; then'',
       ''echo "Linking"'', lc,
       ''else'',
       ''>2& echo "Action did not compile"'', ''exit 1'',
       ''fi'']\<close>
    using sh(1,2) by (rule script_body_lines)
  have \<open>else_branch (split_lf (script_body cc lc)) =
      [''>2& echo "Action did not compile"'', ''exit 1'']\<close>
    unfolding lines else_branch_def using ne by simp
  with lines show ?thesis by (simp only: simp_thms)
qed

lemma occurs_in_self: "occurs_in p (p @ y)"
proof (cases "p @ y")
  case Nil
  then show ?thesis by simp
next
  case (Cons a l)
  have "startswith (p @ y) p" by (rule startswith_append)
  then show ?thesis by (simp add: Cons)
qed

lemma occurs_in_append: "occurs_in p (x @ p @ y)"
  by (induction x) (simp_all add: occurs_in_self)


section \<open>An example trace\<close>

text \<open>A trace with one line of each kind, used as an example below.\<close>

lemma found_example:
  "find_commands [COMPILE_PREFIX @ ''main.swift'', LINKER_PREFIX @ '' main.o'']
     = (Some ((COMPILE_PREFIX @ ''main.swift'') @ SUPPRESS_FLAG), Some (LINKER_PREFIX @ '' main.o''))"
  using link_not_compile [OF is_link_prefixed [of "'' main.o''"]]
    compile_not_link [OF is_compile_prefixed [of "''main.swift''"]]
  by (simp add: find_commands_last last_match_def is_compile_prefixed is_link_prefixed)

lemma example_no_line_feed:
  "\<forall>l\<in>set [COMPILE_PREFIX @ ''main.swift'', LINKER_PREFIX @ '' main.o'']. CHR 0x0A \<notin> set l"
  by (simp add: COMPILE_PREFIX_def LINKER_PREFIX_def)




text \<open>
  A trace whose compile line goes on, after a semicolon, with the text of the link line and
  a comment sign.
\<close>

lemma found_semicolon:
  "find_commands
     [COMPILE_PREFIX @ ''main.swift; '' @ (LINKER_PREFIX @ '' main.o'') @ '' #'',
      LINKER_PREFIX @ '' main.o'']
     = (Some ((COMPILE_PREFIX @ ''main.swift; '' @ (LINKER_PREFIX @ '' main.o'') @ '' #'')
               @ SUPPRESS_FLAG),
        Some (LINKER_PREFIX @ '' main.o''))"
  using link_not_compile [OF is_link_prefixed [of "'' main.o''"]]
    compile_not_link [OF is_compile_prefixed
      [of "''main.swift; '' @ (LINKER_PREFIX @ '' main.o'') @ '' #''"]]
  by (simp add: find_commands_last last_match_def is_compile_prefixed is_link_prefixed)

lemma semicolon_no_line_feed:
  "\<forall>l\<in>set [COMPILE_PREFIX @ ''main.swift; '' @ (LINKER_PREFIX @ '' main.o'') @ '' #'',
      LINKER_PREFIX @ '' main.o'']. CHR 0x0A \<notin> set l"
  by (simp add: COMPILE_PREFIX_def LINKER_PREFIX_def)


section \<open>The claims\<close>

subsection \<open>Which matching line is kept\<close>

text \<open>
  C1, as stated: with several lines starting with one recognition prefix, the first one in
  trace order is returned and the later ones are ignored. The loop assigns on every match,
  so this fails: on a trace with two compile lines, \<open>a.swift\<close> then \<open>b.swift\<close>, the first
  matching line is the \<open>a.swift\<close> one, and the compile command returned is built from the
  \<open>b.swift\<close> one.
\<close>

theorem first_match_counterexample:
  "first_match is_compile
     [COMPILE_PREFIX @ ''a.swift'', COMPILE_PREFIX @ ''b.swift'', LINKER_PREFIX]
     = Some (COMPILE_PREFIX @ ''a.swift'')
   \<and> fst (find_commands
     [COMPILE_PREFIX @ ''a.swift'', COMPILE_PREFIX @ ''b.swift'', LINKER_PREFIX])
     = Some ((COMPILE_PREFIX @ ''b.swift'') @ SUPPRESS_FLAG)
   \<and> fst (find_commands
     [COMPILE_PREFIX @ ''a.swift'', COMPILE_PREFIX @ ''b.swift'', LINKER_PREFIX])
     \<noteq> Some ((COMPILE_PREFIX @ ''a.swift'') @ SUPPRESS_FLAG)"
proof -
  have k: "\<not> is_compile LINKER_PREFIX"
    using is_link_prefixed [of "[]"] by (auto dest: link_not_compile)
  show ?thesis
    by (simp add: find_commands_last first_match_def last_match_def is_compile_prefixed k)
qed

text \<open>
  C1, amended: for every trace and for each of the two categories, the command returned is
  the last line in trace order that starts with the category's prefix (for the compile
  command, that line followed by the flag), and it is absent when no line starts with the
  prefix; earlier matching lines are overwritten.
\<close>

theorem last_match_wins:
  "find_commands tr =
     (map_option (\<lambda>l. l @ SUPPRESS_FLAG) (last_match is_compile tr), last_match is_link tr)"
  by (rule find_commands_last)

text \<open>
  C5: for every trace with exactly one line starting with the compile prefix and exactly one
  starting with the link prefix, both commands are present; the link command is its trace
  line as it is, and the compile command is its trace line followed by the flag, once.
\<close>

theorem one_line_each:
  assumes "filter is_compile tr = [c]" and "filter is_link tr = [l]"
  shows "find_commands tr = (Some (c @ SUPPRESS_FLAG), Some l)"
  using assms by (simp add: find_commands_last last_match_single)

theorem one_line_each_witness:
  "filter is_compile [''swift-build: note'', COMPILE_PREFIX @ ''main.swift'', LINKER_PREFIX @ '' main.o'']
     = [COMPILE_PREFIX @ ''main.swift'']
   \<and> filter is_link [''swift-build: note'', COMPILE_PREFIX @ ''main.swift'', LINKER_PREFIX @ '' main.o'']
     = [LINKER_PREFIX @ '' main.o'']
   \<and> find_commands [''swift-build: note'', COMPILE_PREFIX @ ''main.swift'', LINKER_PREFIX @ '' main.o'']
     = (Some ((COMPILE_PREFIX @ ''main.swift'') @ SUPPRESS_FLAG), Some (LINKER_PREFIX @ '' main.o''))"
proof -
  let ?tr = "[''swift-build: note'', COMPILE_PREFIX @ ''main.swift'', LINKER_PREFIX @ '' main.o'']"
  have n1: "\<not> is_compile ''swift-build: note''"
    by (simp add: is_compile_def startswith_def COMPILE_PREFIX_def)
  have n2: "\<not> is_link ''swift-build: note''"
    by (simp add: is_link_def startswith_def LINKER_PREFIX_def)
  have c: "filter is_compile ?tr = [COMPILE_PREFIX @ ''main.swift'']"
    using link_not_compile [OF is_link_prefixed [of "'' main.o''"]]
    by (simp add: n1 is_compile_prefixed)
  have k: "filter is_link ?tr = [LINKER_PREFIX @ '' main.o'']"
    using compile_not_link [OF is_compile_prefixed [of "''main.swift''"]]
    by (simp add: n2 is_link_prefixed)
  from one_line_each [OF c k] c k show ?thesis by simp
qed

subsection \<open>The order of the two lines\<close>

text \<open>
  C6: for every trace with one compile line and one link line (and any lines around them
  that start with neither prefix), the pair returned does not depend on which of the two
  comes first: the trace with the link line before the compile line gives the same commands
  as the trace with the two exchanged.
\<close>

theorem order_independent:
  assumes "is_compile c" and "is_link l"
    and "\<forall>x\<in>set (a @ b @ d). \<not> is_compile x \<and> \<not> is_link x"
  shows "find_commands (a @ [l] @ b @ [c] @ d) = find_commands (a @ [c] @ b @ [l] @ d)
       \<and> find_commands (a @ [c] @ b @ [l] @ d) = (Some (c @ SUPPRESS_FLAG), Some l)"
proof -
  have nc: "\<not> is_compile l" using assms(2) by (rule link_not_compile)
  have nl: "\<not> is_link c" using assms(1) by (rule compile_not_link)
  have fa: "filter is_compile a = []" "filter is_compile b = []" "filter is_compile d = []"
    "filter is_link a = []" "filter is_link b = []" "filter is_link d = []"
    using assms(3) by (auto simp: filter_empty_conv)
  have "last_match is_compile (a @ [l] @ b @ [c] @ d) = Some c"
    and "last_match is_compile (a @ [c] @ b @ [l] @ d) = Some c"
    and "last_match is_link (a @ [l] @ b @ [c] @ d) = Some l"
    and "last_match is_link (a @ [c] @ b @ [l] @ d) = Some l"
    using assms(1,2) nc nl by (simp_all add: last_match_def fa)
  then show ?thesis
    by (simp add: find_commands_last)
qed

theorem order_independent_witness:
  "is_compile (COMPILE_PREFIX @ ''main.swift'') \<and> is_link (LINKER_PREFIX @ '' main.o'')
   \<and> \<not> is_compile ''note'' \<and> \<not> is_link ''note''
   \<and> find_commands ([''note''] @ [LINKER_PREFIX @ '' main.o''] @ [] @ [COMPILE_PREFIX @ ''main.swift''] @ [])
     = find_commands ([''note''] @ [COMPILE_PREFIX @ ''main.swift''] @ [] @ [LINKER_PREFIX @ '' main.o''] @ [])
   \<and> find_commands ([''note''] @ [COMPILE_PREFIX @ ''main.swift''] @ [] @ [LINKER_PREFIX @ '' main.o''] @ [])
     = (Some ((COMPILE_PREFIX @ ''main.swift'') @ SUPPRESS_FLAG), Some (LINKER_PREFIX @ '' main.o''))"
proof -
  have c: "is_compile (COMPILE_PREFIX @ ''main.swift'')" by (rule is_compile_prefixed)
  have l: "is_link (LINKER_PREFIX @ '' main.o'')" by (rule is_link_prefixed)
  have n: "\<forall>x\<in>set ([''note''] @ [] @ []). \<not> is_compile x \<and> \<not> is_link x"
    by (simp add: is_compile_def is_link_def startswith_def COMPILE_PREFIX_def LINKER_PREFIX_def)
  from n have m: "\<not> is_compile ''note''" "\<not> is_link ''note''" by simp_all
  from order_independent [OF c l n] c l m show ?thesis by blast
qed

subsection \<open>The flag is appended once\<close>

text \<open>
  C10: for every trace, a compile command that is present is a line of the trace that starts
  with the compile prefix, followed by the flag once. The flag does not pile up over several
  matching lines: a new match replaces whatever was stored by the new line followed by the
  flag.
\<close>

theorem compile_command_shape:
  assumes "fst (find_commands tr) = Some v"
  shows "(\<exists>l\<in>set tr. is_compile l \<and> v = l @ SUPPRESS_FLAG)
       \<and> (is_compile x \<longrightarrow> fst (loop_body x (old, k)) = Some (x @ SUPPRESS_FLAG))"
proof -
  from assms obtain l where l: "last_match is_compile tr = Some l" and v: "v = l @ SUPPRESS_FLAG"
    by (auto simp: find_commands_last)
  from last_match_SomeD [OF l] v have "\<exists>l\<in>set tr. is_compile l \<and> v = l @ SUPPRESS_FLAG"
    by blast
  then show ?thesis
    by (simp add: is_compile_def)
qed

theorem compile_command_shape_witness:
  "fst (find_commands [COMPILE_PREFIX @ ''a.swift'', COMPILE_PREFIX @ ''b.swift''])
     = Some ((COMPILE_PREFIX @ ''b.swift'') @ SUPPRESS_FLAG)
   \<and> (\<exists>l\<in>set [COMPILE_PREFIX @ ''a.swift'', COMPILE_PREFIX @ ''b.swift''].
         is_compile l \<and> (COMPILE_PREFIX @ ''b.swift'') @ SUPPRESS_FLAG = l @ SUPPRESS_FLAG)
   \<and> is_compile (COMPILE_PREFIX @ ''b.swift'')
   \<and> fst (loop_body (COMPILE_PREFIX @ ''b.swift'')
              (Some ((COMPILE_PREFIX @ ''a.swift'') @ SUPPRESS_FLAG), None))
     = Some ((COMPILE_PREFIX @ ''b.swift'') @ SUPPRESS_FLAG)"
proof -
  have h: "fst (find_commands [COMPILE_PREFIX @ ''a.swift'', COMPILE_PREFIX @ ''b.swift''])
     = Some ((COMPILE_PREFIX @ ''b.swift'') @ SUPPRESS_FLAG)"
    by (simp add: find_commands_last last_match_def is_compile_prefixed)
  have c: "is_compile (COMPILE_PREFIX @ ''b.swift'')"
    by (rule is_compile_prefixed)
  from compile_command_shape [OF h, of "COMPILE_PREFIX @ ''b.swift''"
      "Some ((COMPILE_PREFIX @ ''a.swift'') @ SUPPRESS_FLAG)" None] h c
  show ?thesis by blast
qed

subsection \<open>A run that finds no compile or no link command\<close>

text \<open>
  C2: for every trace in which no line starts with the compile prefix or no line starts with
  the link prefix, the script leaves every file as it was (contents and permission bits), makes
  no call that opens, writes or changes the mode of a file, prints the diagnostic line and ends
  with \<^verbatim>\<open>sys.exit(1)\<close>.
\<close>

theorem missing_command_fails:
  assumes "returncode b = 0"
    and "\<not> (\<exists>l\<in>set (output_lines b). is_compile l) \<or> \<not> (\<exists>l\<in>set (output_lines b). is_link l)"
  shows "files (fst (main b w)) = files w
       \<and> calls (fst (main b w)) = calls w @ [Exec BUILD_COMMAND SPM_DIRECTORY]
       \<and> stdout (fst (main b w)) = stdout w @
            [''Building action'',
             ''action built. Decoding compile and link commands'',
             ''Cannot generate build script: compile or link command not found'']
       \<and> snd (main b w) = SystemExit 1
       \<and> exit_status (snd (main b w)) = 1"
proof -
  from assms(2)
  have "fst (find_commands (output_lines b)) = None \<or> snd (find_commands (output_lines b)) = None"
    by (simp add: find_commands_last last_match_None)
  with assms(1) have "main b w =
     (w\<lparr>stdout := stdout w @
          [''Building action'',
           ''action built. Decoding compile and link commands'',
           ''Cannot generate build script: compile or link command not found''],
        calls := calls w @ [Exec BUILD_COMMAND SPM_DIRECTORY]\<rparr>,
      SystemExit 1)"
    by (rule main_command_missing)
  then show ?thesis by simp
qed

theorem missing_command_fails_witness:
  "returncode \<lparr>returncode = 0, output_lines = [LINKER_PREFIX @ '' main.o'']\<rparr> = 0
   \<and> (\<not> (\<exists>l\<in>set (output_lines \<lparr>returncode = 0, output_lines = [LINKER_PREFIX @ '' main.o'']\<rparr>).
            is_compile l))
   \<and> files (fst (main \<lparr>returncode = 0, output_lines = [LINKER_PREFIX @ '' main.o'']\<rparr>
        \<lparr>stdout = [], files = Map.empty, new_file_mode = 420, stdout_encodes = (\<lambda>c. False),
         calls = []\<rparr>)) = Map.empty
   \<and> calls (fst (main \<lparr>returncode = 0, output_lines = [LINKER_PREFIX @ '' main.o'']\<rparr>
        \<lparr>stdout = [], files = Map.empty, new_file_mode = 420, stdout_encodes = (\<lambda>c. False),
         calls = []\<rparr>))
       = [Exec BUILD_COMMAND SPM_DIRECTORY]
   \<and> exit_status (snd (main \<lparr>returncode = 0, output_lines = [LINKER_PREFIX @ '' main.o'']\<rparr>
        \<lparr>stdout = [], files = Map.empty, new_file_mode = 420, stdout_encodes = (\<lambda>c. False),
         calls = []\<rparr>)) = 1"
proof -
  let ?b = "\<lparr>returncode = 0, output_lines = [LINKER_PREFIX @ '' main.o'']\<rparr>"
  let ?w = "\<lparr>stdout = [], files = Map.empty, new_file_mode = 420, stdout_encodes = (\<lambda>c. False),
         calls = []\<rparr>"
  have r: "returncode ?b = 0" by simp
  have n: "\<not> (\<exists>l\<in>set (output_lines ?b). is_compile l)"
    using link_not_compile [OF is_link_prefixed [of "'' main.o''"]] by simp
  then have d: "\<not> (\<exists>l\<in>set (output_lines ?b). is_compile l) \<or> \<not> (\<exists>l\<in>set (output_lines ?b). is_link l)"
    by (rule disjI1)
  from missing_command_fails [OF r d, of ?w] r n show ?thesis by simp
qed

subsection \<open>A build that fails\<close>

text \<open>
  C9: for every run in which \<^verbatim>\<open>swift build\<close> returns a non-zero code, the script ends at
  that call with the uncaught \<^verbatim>\<open>CalledProcessError\<close>: the build command is run once, the
  output is not looked at, no file is opened, written or changed, and the status is 1.
\<close>

theorem build_failure_is_fatal:
  assumes "returncode b \<noteq> 0"
  shows "main b w =
       (w\<lparr>stdout := stdout w @ [''Building action''],
          calls := calls w @ [Exec BUILD_COMMAND SPM_DIRECTORY]\<rparr>,
        Uncaught (CalledProcessError (returncode b)))
     \<and> files (fst (main b w)) = files w
     \<and> exit_status (snd (main b w)) = 1"
  using main_build_failed [OF assms, of w] by simp

theorem build_failure_is_fatal_witness:
  "returncode \<lparr>returncode = 1,
       output_lines = [COMPILE_PREFIX @ ''main.swift'', LINKER_PREFIX @ '' main.o'']\<rparr> \<noteq> 0
   \<and> main \<lparr>returncode = 1,
       output_lines = [COMPILE_PREFIX @ ''main.swift'', LINKER_PREFIX @ '' main.o'']\<rparr>
       \<lparr>stdout = [], files = Map.empty, new_file_mode = 420, stdout_encodes = (\<lambda>c. False),
         calls = []\<rparr>
     = (\<lparr>stdout = [''Building action''], files = Map.empty, new_file_mode = 420,
         stdout_encodes = (\<lambda>c. False), calls = [Exec BUILD_COMMAND SPM_DIRECTORY]\<rparr>,
        Uncaught (CalledProcessError 1))"
proof -
  let ?b = "\<lparr>returncode = 1,
       output_lines = [COMPILE_PREFIX @ ''main.swift'', LINKER_PREFIX @ '' main.o'']\<rparr>"
  have r: "returncode ?b \<noteq> 0" by simp
  from build_failure_is_fatal [OF r, of "\<lparr>stdout = [], files = Map.empty, new_file_mode = 420, stdout_encodes = (\<lambda>c. False),
         calls = []\<rparr>"]
  show ?thesis by simp
qed

subsection \<open>A run that finds both commands\<close>







subsection \<open>The text of the generated script\<close>

text \<open>
  C3, as stated: the body holds the template in order, with the link command occurring only
  inside the zero-status branch, so that no path of the script runs it when the compile
  status is not zero. The commands are written into the script as they are, as shell text,
  so this fails: in the trace below the compile line goes on, after a semicolon, with the
  text of the link line and a comment sign. Both commands are found, and the text of the link
  command occurs in the third line of the script, three lines above the \<^verbatim>\<open>if\<close> line that
  tests the status; a shell runs it there after the compile command, whatever that returned.
\<close>

theorem link_outside_branch_counterexample:
  \<open>find_commands
     [COMPILE_PREFIX @ ''main.swift; '' @ (LINKER_PREFIX @ '' main.o'') @ '' #'',
      LINKER_PREFIX @ '' main.o'']
     = (Some ((COMPILE_PREFIX @ ''main.swift; '' @ (LINKER_PREFIX @ '' main.o'') @ '' #'')
               @ SUPPRESS_FLAG),
        Some (LINKER_PREFIX @ '' main.o''))
   \<and> CHR 0x0A \<notin> set (COMPILE_PREFIX @ ''main.swift; '' @ (LINKER_PREFIX @ '' main.o'') @ '' #'')
   \<and> CHR 0x0A \<notin> set (LINKER_PREFIX @ '' main.o'')
   \<and> split_lf (script_body
        ((COMPILE_PREFIX @ ''main.swift; '' @ (LINKER_PREFIX @ '' main.o'') @ '' #'')
           @ SUPPRESS_FLAG)
        (LINKER_PREFIX @ '' main.o'')) ! 5
     = ''if [[ "$swiftStatus" -eq "0" ]]; then''
   \<and> occurs_in (LINKER_PREFIX @ '' main.o'')
        (split_lf (script_body
           ((COMPILE_PREFIX @ ''main.swift; '' @ (LINKER_PREFIX @ '' main.o'') @ '' #'')
              @ SUPPRESS_FLAG)
           (LINKER_PREFIX @ '' main.o'')) ! 2)\<close>
proof -
  let ?c = "COMPILE_PREFIX @ ''main.swift; '' @ (LINKER_PREFIX @ '' main.o'') @ '' #''"
  let ?l = "LINKER_PREFIX @ '' main.o''"
  note s = script_structure [OF found_semicolon semicolon_no_line_feed, THEN conjunct1]
  have n: "CHR 0x0A \<notin> set ?c" "CHR 0x0A \<notin> set ?l"
    using semicolon_no_line_feed by simp_all
  have i: \<open>split_lf (script_body (?c @ SUPPRESS_FLAG) ?l) ! 5
     = ''if [[ "$swiftStatus" -eq "0" ]]; then''\<close>
    unfolding s by simp
  have "occurs_in ?l ((COMPILE_PREFIX @ ''main.swift; '') @ ?l @ ('' #'' @ SUPPRESS_FLAG))"
    by (rule occurs_in_append)
  then have "occurs_in ?l (?c @ SUPPRESS_FLAG)"
    by (simp only: append_assoc)
  then have o: "occurs_in ?l (split_lf (script_body (?c @ SUPPRESS_FLAG) ?l) ! 2)"
    unfolding s by simp
  from found_semicolon n i o show ?thesis by blast
qed

text \<open>
  C3, amended: for every pair of commands found in a trace (whose lines, coming from
  \<^verbatim>\<open>splitlines\<close>, hold no line feed), the script body read line by line is, in this order:
  the shebang line, the print of "Compiling", the compile command with its flag, the capture
  of its status into \<^verbatim>\<open>swiftStatus\<close>, the print of that status, the \<^verbatim>\<open>if\<close> line testing
  the status against zero, the print of "Linking" and the link command, \<^verbatim>\<open>else\<close>, the error
  print and \<^verbatim>\<open>exit 1\<close>, and \<^verbatim>\<open>fi\<close>. The template writes the link command on one line
  only, between the print of "Linking" and \<^verbatim>\<open>else\<close>.
\<close>

theorem script_template:
  assumes "find_commands tr = (Some cc, Some lc)"
    and "\<forall>l\<in>set tr. CHR 0x0A \<notin> set l"
  shows \<open>split_lf (script_body cc lc) =
      [''#!/bin/bash'', ''echo "Compiling"'', cc, ''swiftStatus=$?'',
       ''echo swiftc status is $swiftStatus'',
       ''if [[ "$swiftStatus" -eq "0" ]]; then'',
       ''echo "Linking"'', lc,
       ''else'',
       ''>2& echo "Action did not compile"'', ''exit 1'',
       ''fi'']\<close>
  using script_structure [OF assms] by (rule conjunct1)

theorem script_template_witness:
  \<open>find_commands [COMPILE_PREFIX @ ''main.swift'', LINKER_PREFIX @ '' main.o'']
     = (Some ((COMPILE_PREFIX @ ''main.swift'') @ SUPPRESS_FLAG), Some (LINKER_PREFIX @ '' main.o''))
   \<and> CHR 0x0A \<notin> set (COMPILE_PREFIX @ ''main.swift'')
   \<and> CHR 0x0A \<notin> set (LINKER_PREFIX @ '' main.o'')
   \<and> split_lf (script_body ((COMPILE_PREFIX @ ''main.swift'') @ SUPPRESS_FLAG)
                   (LINKER_PREFIX @ '' main.o'')) =
      [''#!/bin/bash'', ''echo "Compiling"'',
       (COMPILE_PREFIX @ ''main.swift'') @ SUPPRESS_FLAG, ''swiftStatus=$?'',
       ''echo swiftc status is $swiftStatus'',
       ''if [[ "$swiftStatus" -eq "0" ]]; then'',
       ''echo "Linking"'', LINKER_PREFIX @ '' main.o'',
       ''else'',
       ''>2& echo "Action did not compile"'', ''exit 1'',
       ''fi'']\<close>
proof -
  have n: "CHR 0x0A \<notin> set (COMPILE_PREFIX @ ''main.swift'')"
    "CHR 0x0A \<notin> set (LINKER_PREFIX @ '' main.o'')"
    using example_no_line_feed by simp_all
  from script_template [OF found_example example_no_line_feed] found_example n
  show ?thesis by blast
qed

text \<open>
  C4 says that the non-zero branch sends "Action did not compile" to the error stream. The
  line written is \<^verbatim>\<open>>2& echo "Action did not compile"\<close>, with the characters of the
  redirection \<^verbatim>\<open>>&2\<close> exchanged: a shell reads \<^verbatim>\<open>>2\<close> as a redirection of nothing into a
  file named \<^verbatim>\<open>2\<close>, \<^verbatim>\<open>&\<close> as the end of that (background) command, and then runs the
  \<^verbatim>\<open>echo\<close> with its output on the standard output. The theorem evaluates the branch on
  the example trace; \<^verbatim>\<open>exit 1\<close> follows as the claim says.
\<close>

theorem error_branch_text:
  \<open>else_branch (split_lf (script_body ((COMPILE_PREFIX @ ''main.swift'') @ SUPPRESS_FLAG)
                                  (LINKER_PREFIX @ '' main.o'')))
     = [''>2& echo "Action did not compile"'', ''exit 1'']
   \<and> else_branch (split_lf (script_body ((COMPILE_PREFIX @ ''main.swift'') @ SUPPRESS_FLAG)
                                  (LINKER_PREFIX @ '' main.o'')))
     \<noteq> [''>&2 echo "Action did not compile"'', ''exit 1'']\<close>
proof -
  have \<open>else_branch (split_lf (script_body ((COMPILE_PREFIX @ ''main.swift'') @ SUPPRESS_FLAG)
                                  (LINKER_PREFIX @ '' main.o'')))
     = [''>2& echo "Action did not compile"'', ''exit 1'']\<close>
    using script_structure [OF found_example example_no_line_feed] by blast
  then show ?thesis by simp
qed

end
